theory Spec2Isabelle
  imports Main "HOL-Library.Word" "HOL-Library.Multiset"
begin

section \<open>The relational store\<close>

text \<open>
  The services read and write one relational store through the ORM client. The store
  is modelled as a record of tables, each table a list of rows in storage order. An
  operation takes the store and returns its result together with the store it leaves
  behind, so that a write made before a later failure is still visible.

  Row identifiers are strings. The identifier of a row to be created is assigned by the
  store; the model takes it as an argument of the operation. Columns that none of the
  modelled operations reads or writes (e-mail, user name, creation times, the text of a
  clue) are left out of the rows, and so are the relations that are only loaded to
  decorate a returned row.
\<close>

type_synonym ident = string

text \<open>A JavaScript string value: a sequence of UTF-16 code units.\<close>

type_synonym js_string = "16 word list"

datatype GameStatus = LOBBY | IN_PROGRESS | FINISHED

datatype ClueBoardState = AVAILABLE | PENDING | CORRECT | INCORRECT

datatype UserRole = HOST | OPERATOR | PLAYER

text \<open>
  \<open>Error msg\<close> is \<^verbatim>\<open>throw new Error(msg)\<close> of the services. The other two are raised by
  the ORM client: an \<^verbatim>\<open>update\<close> or \<^verbatim>\<open>delete\<close> whose \<^verbatim>\<open>where\<close> selects no row, and an
  \<^verbatim>\<open>include\<close> of a required relation whose row is absent.
\<close>

datatype error = Error string | RecordNotFound | RequiredRelationMissing

record User =
  user_id :: ident
  user_role :: UserRole

record Game =
  game_id :: ident
  game_title :: js_string
  game_hostId :: ident
  game_teamLimit :: int
  game_status :: GameStatus

record Team =
  team_id :: ident
  team_gameId :: ident
  team_name :: js_string
  team_order :: int
  team_score :: int

record TeamMember =
  member_id :: ident
  member_teamId :: ident
  member_userId :: ident
  member_isCaptain :: bool

record Round =
  round_id :: ident
  round_gameId :: ident

record Category =
  category_id :: ident
  category_roundId :: ident

record Clue =
  clue_id :: ident
  clue_categoryId :: ident
  clue_value :: int

record ClueState =
  cs_id :: ident
  cs_clueId :: ident
  cs_gameId :: ident
  cs_state :: ClueBoardState
  cs_pickedByTeamId :: "ident option"
  cs_resolvedById :: "ident option"

record TeamResponse =
  resp_id :: ident
  resp_teamId :: ident
  resp_clueId :: ident
  resp_submittedById :: ident
  resp_submittedAnswer :: js_string
  resp_isCorrect :: "bool option"
  resp_awardedValue :: "int option"
  resp_validatedById :: "ident option"
  resp_validatedAt :: "nat option"

record db =
  users :: "User list"
  games :: "Game list"
  teams :: "Team list"
  teamMembers :: "TeamMember list"
  rounds :: "Round list"
  categories :: "Category list"
  clues :: "Clue list"
  clueStates :: "ClueState list"
  teamResponses :: "TeamResponse list"

subsection \<open>The client's queries\<close>

text \<open>\<^verbatim>\<open>findUnique({ where: { id } })\<close> and \<^verbatim>\<open>findFirst({ where })\<close>: the first row selected.\<close>

definition findUnique :: "('r \<Rightarrow> ident) \<Rightarrow> ident \<Rightarrow> 'r list \<Rightarrow> 'r option" where
  "findUnique key i rows = find (\<lambda>r. key r = i) rows"

definition findFirst :: "('r \<Rightarrow> bool) \<Rightarrow> 'r list \<Rightarrow> 'r option" where
  "findFirst p rows = find p rows"

text \<open>
  \<^verbatim>\<open>update({ where: { id }, data })\<close> changes the row with that identifier and returns it
  as changed; it raises when there is no such row. The identifier is the table's primary
  key, so the \<^verbatim>\<open>where\<close> selects at most one row.
\<close>

definition update_where :: "('r \<Rightarrow> bool) \<Rightarrow> ('r \<Rightarrow> 'r) \<Rightarrow> 'r list \<Rightarrow> error + ('r \<times> 'r list)" where
  "update_where p f rows =
     (case find p rows of
        None \<Rightarrow> Inl RecordNotFound
      | Some r \<Rightarrow> Inr (f r, map (\<lambda>x. if p x then f x else x) rows))"

text \<open>\<^verbatim>\<open>delete({ where: { id } })\<close> removes the row and raises when there is none.\<close>

definition delete_where :: "('r \<Rightarrow> bool) \<Rightarrow> 'r list \<Rightarrow> error + 'r list" where
  "delete_where p rows =
     (case find p rows of
        None \<Rightarrow> Inl RecordNotFound
      | Some r \<Rightarrow> Inr (filter (\<lambda>x. \<not> p x) rows))"

text \<open>
  \<^verbatim>\<open>$transaction(async (tx) => ...)\<close>: the writes of the body are committed when it
  returns and are all rolled back when it raises.
\<close>

definition transaction :: "(db \<Rightarrow> error + ('a \<times> db)) \<Rightarrow> db \<Rightarrow> (error + 'a) \<times> db" where
  "transaction body d =
     (case body d of
        Inl e \<Rightarrow> (Inl e, d)
      | Inr (x, d') \<Rightarrow> (Inr x, d'))"

subsection \<open>Strings\<close>

text \<open>
  \<^verbatim>\<open>String.prototype.trim\<close> removes white space and line terminators from both ends.
\<close>

definition is_js_whitespace :: "16 word \<Rightarrow> bool" where
  "is_js_whitespace c \<longleftrightarrow>
     c = 0x0009 \<or> c = 0x000A \<or> c = 0x000B \<or> c = 0x000C \<or> c = 0x000D \<or> c = 0x0020 \<or>
     c = 0x00A0 \<or> c = 0x1680 \<or> (0x2000 \<le> c \<and> c \<le> 0x200A) \<or> c = 0x2028 \<or> c = 0x2029 \<or>
     c = 0x202F \<or> c = 0x205F \<or> c = 0x3000 \<or> c = 0xFEFF"

definition trim :: "js_string \<Rightarrow> js_string" where
  "trim s = rev (dropWhile is_js_whitespace (rev (dropWhile is_js_whitespace s)))"

section \<open>The game service\<close>

record CreateGameInput =
  cg_hostId :: ident
  cg_title :: js_string
  cg_teamLimit :: "int option"

record UpdateGameSettingsInput =
  ug_title :: "js_string option"
  ug_teamLimit :: "int option"

definition ensureHostAccess :: "Game \<Rightarrow> ident \<Rightarrow> error option" where
  "ensureHostAccess game actorId =
     (if game_hostId game \<noteq> actorId then Some (Error ''Only the host can perform this action'')
      else None)"

text \<open>\<^verbatim>\<open>game.teams\<close> of a game loaded with \<^verbatim>\<open>include: { teams: true }\<close>.\<close>

definition game_teams :: "db \<Rightarrow> ident \<Rightarrow> Team list" where
  "game_teams d gameId = filter (\<lambda>t. team_gameId t = gameId) (teams d)"

definition createGame :: "db \<Rightarrow> ident \<Rightarrow> CreateGameInput \<Rightarrow> (error + Game) \<times> db" where
  "createGame d newId input =
     (let hostId = cg_hostId input;
          title = cg_title input;
          teamLimit = (case cg_teamLimit input of None \<Rightarrow> 4 | Some n \<Rightarrow> n)
      in if trim title = [] then (Inl (Error ''Game title is required''), d)
         else
           let game = \<lparr> game_id = newId, game_title = trim title, game_hostId = hostId,
                        game_teamLimit = teamLimit, game_status = LOBBY \<rparr>
           in (Inr game, d\<lparr> games := games d @ [game] \<rparr>))"

definition updateGameSettings ::
  "db \<Rightarrow> ident \<Rightarrow> UpdateGameSettingsInput \<Rightarrow> ident \<Rightarrow> (error + Game) \<times> db" where
  "updateGameSettings d gameId data actorId =
     (case findUnique game_id gameId (games d) of
        None \<Rightarrow> (Inl (Error ''Game not found''), d)
      | Some game \<Rightarrow>
         (case ensureHostAccess game actorId of
            Some e \<Rightarrow> (Inl e, d)
          | None \<Rightarrow>
             if game_status game \<noteq> LOBBY
             then (Inl (Error ''Game settings are locked once the game starts''), d)
             else
               let nextTitle = (case ug_title data of None \<Rightarrow> game_title game | Some t \<Rightarrow> trim t);
                   nextTeamLimit = (case ug_teamLimit data of None \<Rightarrow> game_teamLimit game | Some n \<Rightarrow> n)
               in if nextTeamLimit < 1 then (Inl (Error ''Team limit must be at least 1''), d)
                  else
                    (case update_where (\<lambda>g. game_id g = gameId)
                            (\<lambda>g. g\<lparr> game_title := nextTitle, game_teamLimit := nextTeamLimit \<rparr>)
                            (games d) of
                       Inl e \<Rightarrow> (Inl e, d)
                     | Inr (updated, gs) \<Rightarrow> (Inr updated, d\<lparr> games := gs \<rparr>))))"

definition startGame :: "db \<Rightarrow> ident \<Rightarrow> ident \<Rightarrow> (error + Game) \<times> db" where
  "startGame d gameId actorId =
     (case findUnique game_id gameId (games d) of
        None \<Rightarrow> (Inl (Error ''Game not found''), d)
      | Some game \<Rightarrow>
         (case ensureHostAccess game actorId of
            Some e \<Rightarrow> (Inl e, d)
          | None \<Rightarrow>
             if game_status game \<noteq> LOBBY then (Inl (Error ''Game has already started''), d)
             else if length (game_teams d gameId) = 0
             then (Inl (Error ''Add at least one team before starting the game''), d)
             else
               (case update_where (\<lambda>g. game_id g = gameId)
                       (\<lambda>g. g\<lparr> game_status := IN_PROGRESS \<rparr>) (games d) of
                  Inl e \<Rightarrow> (Inl e, d)
                | Inr (started, gs) \<Rightarrow> (Inr started, d\<lparr> games := gs \<rparr>))))"

section \<open>The team service\<close>

record CreateTeamInput =
  ct_gameId :: ident
  ct_name :: js_string
  ct_actorId :: ident
  ct_makeCaptain :: "bool option"

definition ensureLobbyGame :: "Game \<Rightarrow> error option" where
  "ensureLobbyGame game =
     (if game_status game \<noteq> LOBBY
      then Some (Error ''Teams can only be managed while the game is in the lobby state'')
      else None)"

text \<open>
  \<open>createTeam\<close> writes the team and, when \<^verbatim>\<open>makeCaptain\<close> is set (the default), the
  membership of the actor as its captain, in one nested \<^verbatim>\<open>create\<close>.
\<close>

definition createTeam :: "db \<Rightarrow> ident \<Rightarrow> ident \<Rightarrow> CreateTeamInput \<Rightarrow> (error + Team) \<times> db" where
  "createTeam d newTeamId newMemberId input =
     (let gameId = ct_gameId input;
          name = ct_name input;
          actorId = ct_actorId input;
          makeCaptain = (case ct_makeCaptain input of None \<Rightarrow> True | Some b \<Rightarrow> b)
      in if trim name = [] then (Inl (Error ''Team name is required''), d)
         else
           (case findUnique game_id gameId (games d) of
              None \<Rightarrow> (Inl (Error ''Game not found''), d)
            | Some game \<Rightarrow>
               (case findUnique user_id actorId (users d) of
                  None \<Rightarrow> (Inl (Error ''Actor not found''), d)
                | Some actor \<Rightarrow>
                   (case ensureLobbyGame game of
                      Some e \<Rightarrow> (Inl e, d)
                    | None \<Rightarrow>
                       if int (length (game_teams d gameId)) \<ge> game_teamLimit game
                       then (Inl (Error ''Team limit reached for this game''), d)
                       else
                         let nextOrder = int (length (game_teams d gameId)) + 1;
                             team = \<lparr> team_id = newTeamId, team_gameId = gameId,
                                      team_name = trim name, team_order = nextOrder,
                                      team_score = 0 \<rparr>;
                             members = (if makeCaptain
                                        then [\<lparr> member_id = newMemberId, member_teamId = newTeamId,
                                                member_userId = actorId, member_isCaptain = True \<rparr>]
                                        else [])
                         in (Inr team, d\<lparr> teams := teams d @ [team],
                                          teamMembers := teamMembers d @ members \<rparr>)))))"

text \<open>
  The re-numbering of \<open>removeTeam\<close>: \<^verbatim>\<open>Promise.all(teams.map((t, index) => update ...))\<close>.
  Every update is issued, in the order of the list; the whole is rejected with the first
  rejection while the other updates still take place.
\<close>

fun renumber :: "(nat \<times> Team) list \<Rightarrow> db \<Rightarrow> error option \<times> db" where
  "renumber [] d = (None, d)"
| "renumber ((index, t) # rest) d =
     (case update_where (\<lambda>x. team_id x = team_id t)
             (\<lambda>x. x\<lparr> team_order := int index + 1 \<rparr>) (teams d) of
        Inl e \<Rightarrow> (Some e, snd (renumber rest d))
      | Inr (_, ts) \<Rightarrow> renumber rest (d\<lparr> teams := ts \<rparr>))"

text \<open>
  \<^verbatim>\<open>findMany({ where: { gameId }, orderBy: { order: "asc" } })\<close>: the rows of the game,
  sorted by \<open>order\<close>; rows of equal \<open>order\<close> stay in storage order.
\<close>

definition findTeamsByOrder :: "db \<Rightarrow> ident \<Rightarrow> Team list" where
  "findTeamsByOrder d gameId = sort_key team_order (filter (\<lambda>t. team_gameId t = gameId) (teams d))"

text \<open>
  \<open>removeTeam\<close> deletes the row of the team. What the store does with rows that refer
  to the team is fixed by the schema and plays no part in what \<open>removeTeam\<close> reads
  afterwards, the teams of the game.
\<close>

definition removeTeam :: "db \<Rightarrow> ident \<Rightarrow> ident \<Rightarrow> (error + unit) \<times> db" where
  "removeTeam d teamId actorId =
     (case findUnique team_id teamId (teams d) of
        None \<Rightarrow> (Inl (Error ''Team not found''), d)
      | Some team \<Rightarrow>
         (case findUnique game_id (team_gameId team) (games d) of
            None \<Rightarrow> (Inl RequiredRelationMissing, d)
          | Some game \<Rightarrow>
             (case ensureLobbyGame game of
                Some e \<Rightarrow> (Inl e, d)
              | None \<Rightarrow>
                 if game_hostId game \<noteq> actorId
                 then (Inl (Error ''Only the host can remove teams''), d)
                 else
                   (case delete_where (\<lambda>t. team_id t = teamId) (teams d) of
                      Inl e \<Rightarrow> (Inl e, d)
                    | Inr ts \<Rightarrow>
                       let d1 = d\<lparr> teams := ts \<rparr>;
                           found = findTeamsByOrder d1 (team_gameId team)
                       in (case renumber (enumerate 0 found) d1 of
                             (Some e, d2) \<Rightarrow> (Inl e, d2)
                           | (None, d2) \<Rightarrow> (Inr (), d2))))))"

section \<open>The clue service\<close>


record UpdateClueStateInput =
  uc_clueId :: ident
  uc_state :: ClueBoardState
  uc_resolvedById :: ident

text \<open>A clue loaded with \<^verbatim>\<open>clueInclude\<close>: its category, the round of that, the game of that.\<close>

record ClueWithContext =
  ctx_clue :: Clue
  ctx_category :: Category
  ctx_round :: Round
  ctx_game :: Game


definition loadClue :: "db \<Rightarrow> ident \<Rightarrow> error + ClueWithContext" where
  "loadClue d clueId =
     (case findUnique clue_id clueId (clues d) of
        None \<Rightarrow> Inl (Error ''Clue not found'')
      | Some clue \<Rightarrow>
         (case findUnique category_id (clue_categoryId clue) (categories d) of
            None \<Rightarrow> Inl RequiredRelationMissing
          | Some category \<Rightarrow>
             (case findUnique round_id (category_roundId category) (rounds d) of
                None \<Rightarrow> Inl RequiredRelationMissing
              | Some round \<Rightarrow>
                 (case findUnique game_id (round_gameId round) (games d) of
                    None \<Rightarrow> Inl RequiredRelationMissing
                  | Some game \<Rightarrow>
                     Inr \<lparr> ctx_clue = clue, ctx_category = category, ctx_round = round,
                           ctx_game = game \<rparr>))))"


text \<open>\<open>updateClueState\<close> returns the changed row together with the clue it loaded.\<close>

definition updateClueState ::
  "db \<Rightarrow> UpdateClueStateInput \<Rightarrow> (error + ClueState \<times> ClueWithContext) \<times> db" where
  "updateClueState d input =
     (let clueId = uc_clueId input; state = uc_state input; resolvedById = uc_resolvedById input
      in case loadClue d clueId of
           Inl e \<Rightarrow> (Inl e, d)
         | Inr clue \<Rightarrow>
            (case findUnique user_id resolvedById (users d) of
               None \<Rightarrow> (Inl (Error ''Operator not found''), d)
             | Some operator \<Rightarrow>
                (case findFirst (\<lambda>s. cs_clueId s = clueId) (clueStates d) of
                   None \<Rightarrow> (Inl (Error ''Clue state not found''), d)
                 | Some existingState \<Rightarrow>
                    (case update_where (\<lambda>s. cs_id s = cs_id existingState)
                            (\<lambda>s. s\<lparr> cs_state := state, cs_resolvedById := Some resolvedById \<rparr>)
                            (clueStates d) of
                       Inl e \<Rightarrow> (Inl e, d)
                     | Inr (updated, css) \<Rightarrow>
                        (Inr (updated, clue), d\<lparr> clueStates := css \<rparr>)))))"

definition resetClueState :: "db \<Rightarrow> ident \<Rightarrow> ident \<Rightarrow> ident \<Rightarrow> (error + ClueState) \<times> db" where
  "resetClueState d newId clueId actorId =
     (case loadClue d clueId of
        Inl e \<Rightarrow> (Inl e, d)
      | Inr clue \<Rightarrow>
         (case findUnique user_id actorId (users d) of
            None \<Rightarrow> (Inl (Error ''Operator not found''), d)
          | Some operator \<Rightarrow>
             (case findFirst (\<lambda>s. cs_clueId s = clueId) (clueStates d) of
                None \<Rightarrow>
                  let created = \<lparr> cs_id = newId, cs_clueId = clueId,
                                  cs_gameId = round_gameId (ctx_round clue),
                                  cs_state = AVAILABLE, cs_pickedByTeamId = None,
                                  cs_resolvedById = None \<rparr>
                  in (Inr created, d\<lparr> clueStates := clueStates d @ [created] \<rparr>)
              | Some state \<Rightarrow>
                 (case update_where (\<lambda>s. cs_id s = cs_id state)
                         (\<lambda>s. s\<lparr> cs_state := AVAILABLE, cs_pickedByTeamId := None,
                                  cs_resolvedById := None \<rparr>)
                         (clueStates d) of
                    Inl e \<Rightarrow> (Inl e, d)
                  | Inr (updated, css) \<Rightarrow> (Inr updated, d\<lparr> clueStates := css \<rparr>)))))"

section \<open>The response service\<close>

record ValidateResponseInput =
  vr_responseId :: ident
  vr_isCorrect :: bool
  vr_awardedValue :: "int option"
  vr_operatorId :: ident

definition ensureOperator :: "User \<Rightarrow> error option" where
  "ensureOperator user =
     (if user_role user \<noteq> OPERATOR \<and> user_role user \<noteq> HOST
      then Some (Error ''Only operators or hosts can validate responses'')
      else None)"

text \<open>\<^verbatim>\<open>awardedValue ?? (isCorrect ? response.clue.value : -response.clue.value)\<close>\<close>

definition scoreDelta :: "int option \<Rightarrow> bool \<Rightarrow> Clue \<Rightarrow> int" where
  "scoreDelta awardedValue isCorrect clue =
     (case awardedValue of
        Some v \<Rightarrow> v
      | None \<Rightarrow> if isCorrect then clue_value clue else - clue_value clue)"

text \<open>
  The body of the transaction of \<open>validateResponse\<close>, on the store \<open>tx\<close> it sees:
  the response, the score of the team, the state of the clue. \<open>now\<close> is the value of
  \<^verbatim>\<open>new Date()\<close>.
\<close>

definition validateResponse_tx ::
  "ValidateResponseInput \<Rightarrow> TeamResponse \<Rightarrow> int \<Rightarrow> nat \<Rightarrow> db \<Rightarrow> error + (TeamResponse \<times> db)" where
  "validateResponse_tx input response delta now tx =
     (case update_where (\<lambda>r. resp_id r = vr_responseId input)
             (\<lambda>r. r\<lparr> resp_isCorrect := Some (vr_isCorrect input),
                      resp_awardedValue := Some delta,
                      resp_validatedById := Some (vr_operatorId input),
                      resp_validatedAt := Some now \<rparr>)
             (teamResponses tx) of
        Inl e \<Rightarrow> Inl e
      | Inr (updatedResponse, rs) \<Rightarrow>
         let tx1 = tx\<lparr> teamResponses := rs \<rparr>
         in (case (if delta \<noteq> 0
                   then (case update_where (\<lambda>t. team_id t = resp_teamId response)
                                (\<lambda>t. t\<lparr> team_score := team_score t + delta \<rparr>) (teams tx1) of
                           Inl e \<Rightarrow> Inl e
                         | Inr (_, ts) \<Rightarrow> Inr (tx1\<lparr> teams := ts \<rparr>))
                   else Inr tx1) of
               Inl e \<Rightarrow> Inl e
             | Inr tx2 \<Rightarrow>
                (case findFirst (\<lambda>s. cs_clueId s = resp_clueId response) (clueStates tx2) of
                   None \<Rightarrow> Inr (updatedResponse, tx2)
                 | Some clueState \<Rightarrow>
                    (case update_where (\<lambda>s. cs_id s = cs_id clueState)
                            (\<lambda>s. s\<lparr> cs_state := (if vr_isCorrect input then CORRECT else INCORRECT),
                                     cs_resolvedById := Some (vr_operatorId input) \<rparr>)
                            (clueStates tx2) of
                       Inl e \<Rightarrow> Inl e
                     | Inr (_, css) \<Rightarrow> Inr (updatedResponse, tx2\<lparr> clueStates := css \<rparr>)))))"

definition validateResponse ::
  "db \<Rightarrow> nat \<Rightarrow> ValidateResponseInput \<Rightarrow> (error + TeamResponse) \<times> db" where
  "validateResponse d now input =
     (case findUnique user_id (vr_operatorId input) (users d) of
        None \<Rightarrow> (Inl (Error ''Operator not found''), d)
      | Some operator \<Rightarrow>
         (case ensureOperator operator of
            Some e \<Rightarrow> (Inl e, d)
          | None \<Rightarrow>
             (case findUnique resp_id (vr_responseId input) (teamResponses d) of
                None \<Rightarrow> (Inl (Error ''Response not found''), d)
              | Some response \<Rightarrow>
                 (case findUnique clue_id (resp_clueId response) (clues d) of
                    None \<Rightarrow> (Inl RequiredRelationMissing, d)
                  | Some clue \<Rightarrow>
                     transaction
                       (validateResponse_tx input response
                          (scoreDelta (vr_awardedValue input) (vr_isCorrect input) clue) now)
                       d))))"

section \<open>Notions used by the properties\<close>

definition succeeds :: "(error + 'a) \<times> db \<Rightarrow> bool" where
  "succeeds r = (case fst r of Inl _ \<Rightarrow> False | Inr _ \<Rightarrow> True)"

text \<open>
  The required relations of a clue are present: every clue has its category, every
  category its round, every round its game. The store keeps this through its foreign
  keys.
\<close>

definition required_relations :: "db \<Rightarrow> bool" where
  "required_relations d \<longleftrightarrow>
     list_all (\<lambda>c. findUnique category_id (clue_categoryId c) (categories d) \<noteq> None) (clues d) \<and>
     list_all (\<lambda>c. findUnique round_id (category_roundId c) (rounds d) \<noteq> None) (categories d) \<and>
     list_all (\<lambda>r. findUnique game_id (round_gameId r) (games d) \<noteq> None) (rounds d)"

text \<open>The score of a team, when the team is there.\<close>

definition score_of :: "db \<Rightarrow> ident \<Rightarrow> int option" where
  "score_of d teamId = map_option team_score (findUnique team_id teamId (teams d))"

text \<open>
  What the re-numbering along a list of indexed teams makes of one row: a row whose
  identifier is that of a team of the list gets the index of that team plus one as its
  order, any other row stays.
\<close>

definition new_order :: "(nat \<times> Team) list \<Rightarrow> Team \<Rightarrow> Team" where
  "new_order ps x =
     (case find (\<lambda>p. team_id (snd p) = team_id x) ps of
        None \<Rightarrow> x
      | Some p \<Rightarrow> x\<lparr> team_order := int (fst p) + 1 \<rparr>)"

subsection \<open>Stores to run the operations on\<close>

text \<open>
  \<open>lobby_db\<close>: a game in the lobby with a limit of three teams and three teams.
  \<open>play_db\<close>: a game in progress with two teams, one clue worth 200 and one answer
  submitted for it. The title ``Quiz'' and the names are given as code units.
\<close>

definition lobby_db :: db where
  "lobby_db =
     \<lparr> users = [\<lparr> user_id = ''host1'', user_role = HOST \<rparr>,
                \<lparr> user_id = ''op1'', user_role = OPERATOR \<rparr>,
                \<lparr> user_id = ''p1'', user_role = PLAYER \<rparr>],
       games = [\<lparr> game_id = ''g1'', game_title = [0x51, 0x75, 0x69, 0x7A],
                  game_hostId = ''host1'', game_teamLimit = 3, game_status = LOBBY \<rparr>],
       teams = [\<lparr> team_id = ''tA'', team_gameId = ''g1'', team_name = [0x41],
                  team_order = 1, team_score = 0 \<rparr>,
                \<lparr> team_id = ''tB'', team_gameId = ''g1'', team_name = [0x42],
                  team_order = 2, team_score = 0 \<rparr>,
                \<lparr> team_id = ''tC'', team_gameId = ''g1'', team_name = [0x43],
                  team_order = 3, team_score = 0 \<rparr>],
       teamMembers = [],
       rounds = [], categories = [], clues = [], clueStates = [], teamResponses = [] \<rparr>"

definition play_db :: db where
  "play_db =
     \<lparr> users = [\<lparr> user_id = ''host1'', user_role = HOST \<rparr>,
                \<lparr> user_id = ''op1'', user_role = OPERATOR \<rparr>,
                \<lparr> user_id = ''p1'', user_role = PLAYER \<rparr>,
                \<lparr> user_id = ''p2'', user_role = PLAYER \<rparr>],
       games = [\<lparr> game_id = ''g1'', game_title = [0x51, 0x75, 0x69, 0x7A],
                  game_hostId = ''host1'', game_teamLimit = 2, game_status = IN_PROGRESS \<rparr>],
       teams = [\<lparr> team_id = ''tA'', team_gameId = ''g1'', team_name = [0x41],
                  team_order = 1, team_score = 0 \<rparr>,
                \<lparr> team_id = ''tB'', team_gameId = ''g1'', team_name = [0x42],
                  team_order = 2, team_score = 0 \<rparr>],
       teamMembers = [\<lparr> member_id = ''m1'', member_teamId = ''tA'', member_userId = ''p1'',
                        member_isCaptain = True \<rparr>,
                      \<lparr> member_id = ''m2'', member_teamId = ''tB'', member_userId = ''p2'',
                        member_isCaptain = True \<rparr>],
       rounds = [\<lparr> round_id = ''r1'', round_gameId = ''g1'' \<rparr>],
       categories = [\<lparr> category_id = ''c1'', category_roundId = ''r1'' \<rparr>],
       clues = [\<lparr> clue_id = ''q1'', clue_categoryId = ''c1'', clue_value = 200 \<rparr>],
       clueStates = [],
       teamResponses = [\<lparr> resp_id = ''a1'', resp_teamId = ''tA'', resp_clueId = ''q1'',
                          resp_submittedById = ''p1'', resp_submittedAnswer = [0x34, 0x32],
                          resp_isCorrect = None, resp_awardedValue = None,
                          resp_validatedById = None, resp_validatedAt = None \<rparr>] \<rparr>"

text \<open>
  \<open>resolved_db\<close>: \<open>play_db\<close> after the clue was picked by team \<open>tA\<close> and resolved as
  correct. \<open>two_team_db\<close>: \<open>lobby_db\<close> with its first two teams only.
\<close>

definition resolved_db :: db where
  "resolved_db =
     play_db\<lparr> clueStates :=
       [\<lparr> cs_id = ''s0'', cs_clueId = ''q1'', cs_gameId = ''g1'', cs_state = CORRECT,
           cs_pickedByTeamId = Some ''tA'', cs_resolvedById = Some ''op1'' \<rparr>] \<rparr>"

definition two_team_db :: db where
  "two_team_db = lobby_db\<lparr> teams := take 2 (teams lobby_db) \<rparr>"

text \<open>
  \<open>orphan_db\<close>: \<open>play_db\<close> with the clue picked by team \<open>tA\<close> and the rows of the
  teams gone, so that the second write of a validation finds no row to change.
\<close>

definition orphan_db :: db where
  "orphan_db =
     play_db\<lparr> teams := [],
               clueStates :=
       [\<lparr> cs_id = ''s0'', cs_clueId = ''q1'', cs_gameId = ''g1'', cs_state = PENDING,
           cs_pickedByTeamId = Some ''tA'', cs_resolvedById = None \<rparr>] \<rparr>"

text \<open>
  \<open>shuffled_db\<close>: \<open>lobby_db\<close> with the orders of its teams not following the order
  in which the rows are stored: \<open>tA\<close> is third, \<open>tB\<close> first and \<open>tC\<close> second.
\<close>

definition shuffled_db :: db where
  "shuffled_db =
     lobby_db\<lparr> teams :=
       [\<lparr> team_id = ''tA'', team_gameId = ''g1'', team_name = [0x41],
           team_order = 3, team_score = 0 \<rparr>,
        \<lparr> team_id = ''tB'', team_gameId = ''g1'', team_name = [0x42],
           team_order = 1, team_score = 0 \<rparr>,
        \<lparr> team_id = ''tC'', team_gameId = ''g1'', team_name = [0x43],
           team_order = 2, team_score = 0 \<rparr>] \<rparr>"

section \<open>Facts about the queries\<close>

lemma find_map_upd:
  "(\<And>x. q (f x) = q x) \<Longrightarrow>
   find q (map (\<lambda>x. if p x then f x else x) rows) =
   map_option (\<lambda>x. if p x then f x else x) (find q rows)"
  by (induction rows) auto

lemma findUnique_SomeD: "findUnique key i rows = Some r \<Longrightarrow> key r = i \<and> r \<in> set rows"
  by (auto simp: findUnique_def find_Some_iff)

lemma findFirst_SomeD: "findFirst p rows = Some r \<Longrightarrow> p r \<and> r \<in> set rows"
  by (auto simp: findFirst_def find_Some_iff)

lemma find_append_None: "find p xs = None \<Longrightarrow> find p (xs @ ys) = find p ys"
  by (induction xs) (auto split: if_splits)

lemma find_key_member: "r \<in> set rows \<Longrightarrow> find (\<lambda>x. key x = key r) rows \<noteq> None"
  by (auto simp: find_None_iff)

text \<open>With its required relations present, a clue that is there loads.\<close>

lemma loadClue_ok:
  assumes "required_relations d" and "findUnique clue_id clueId (clues d) = Some c"
  shows "\<exists>ctx. loadClue d clueId = Inr ctx \<and> ctx_clue ctx = c"
proof -
  from assms(2) have c: "c \<in> set (clues d)" by (simp add: findUnique_SomeD)
  with assms(1) obtain cat
    where cat: "findUnique category_id (clue_categoryId c) (categories d) = Some cat"
    by (auto simp: required_relations_def list_all_iff)
  then have "cat \<in> set (categories d)" by (simp add: findUnique_SomeD)
  with assms(1) obtain r where r: "findUnique round_id (category_roundId cat) (rounds d) = Some r"
    by (auto simp: required_relations_def list_all_iff)
  then have "r \<in> set (rounds d)" by (simp add: findUnique_SomeD)
  with assms(1) obtain g where g: "findUnique game_id (round_gameId r) (games d) = Some g"
    by (auto simp: required_relations_def list_all_iff)
  show ?thesis using assms(2) cat r g by (simp add: loadClue_def)
qed

lemma required_relations_play_db: "required_relations play_db"
  by (simp add: required_relations_def findUnique_def play_db_def)

lemma required_relations_resolved_db: "required_relations resolved_db"
  by (simp add: required_relations_def findUnique_def play_db_def resolved_db_def)

section \<open>Starting a game\<close>

text \<open>
  Claim C4, as it is written: for all games, \<open>startGame\<close> succeeds if and only if the
  status of the game is LOBBY and the game has at least one team. The code also asks that
  the actor is the host of the game: in \<open>lobby_db\<close> the game is in the lobby and has
  three teams, and \<open>startGame\<close> called by the operator, who is not its host, fails.
\<close>

theorem startGame_non_host_counterexample:
  "\<not> (succeeds (startGame lobby_db ''g1'' ''op1'') \<longleftrightarrow>
        (map_option game_status (findUnique game_id ''g1'' (games lobby_db)) = Some LOBBY \<and>
         1 \<le> length (game_teams lobby_db ''g1'')))"
  by (simp add: startGame_def succeeds_def ensureHostAccess_def findUnique_def lobby_db_def
      game_teams_def)

text \<open>
  Claim C4, amended: for every game of the store and the actor that is its host,
  \<open>startGame\<close> succeeds if and only if the status of the game is LOBBY and the game
  has at least one team; when it succeeds, the game it returns, which is the game then
  stored, has status IN_PROGRESS.
\<close>

theorem startGame_by_host:
  assumes "findUnique game_id gameId (games d) = Some game"
      and "game_hostId game = actorId"
  shows "(succeeds (startGame d gameId actorId) \<longleftrightarrow>
            game_status game = LOBBY \<and> 1 \<le> length (game_teams d gameId)) \<and>
         (\<forall>g d'. startGame d gameId actorId = (Inr g, d') \<longrightarrow>
            game_status g = IN_PROGRESS \<and> findUnique game_id gameId (games d') = Some g)"
proof -
  have k: "game_id game = gameId" using assms(1) by (simp add: findUnique_SomeD)
  have f: "find (\<lambda>g. game_id g = gameId) (games d) = Some game"
    using assms(1) by (simp add: findUnique_def)
  show ?thesis
    using assms k f
    by (auto simp: startGame_def succeeds_def ensureHostAccess_def update_where_def
        findUnique_def find_map_upd Suc_le_eq
        split: option.splits sum.splits if_splits)
qed

theorem startGame_by_host_witness:
  "succeeds (startGame lobby_db ''g1'' ''host1'') \<and>
   map_option game_status (findUnique game_id ''g1'' (games (snd (startGame lobby_db ''g1'' ''host1''))))
     = Some IN_PROGRESS"
proof -
  have h1: "findUnique game_id ''g1'' (games lobby_db) = Some (hd (games lobby_db))"
    by (simp add: findUnique_def lobby_db_def)
  have h2: "game_hostId (hd (games lobby_db)) = ''host1''"
    by (simp add: lobby_db_def)
  have t: "length (game_teams lobby_db ''g1'') = 3" "game_status (hd (games lobby_db)) = LOBBY"
    by (simp_all add: lobby_db_def game_teams_def)
  from startGame_by_host [OF h1 h2] t show ?thesis
    by (cases "startGame lobby_db ''g1'' ''host1''") (auto simp: succeeds_def split: sum.splits)
qed

section \<open>Creating a game\<close>

text \<open>
  Claim C10: \<open>createGame\<close> checks only that the title is not blank. With a title that
  is not blank it succeeds for every team limit, zero and the negative integers
  included, and stores the limit as given (4 when none is given). The bound of 1 is that
  of \<open>updateGameSettings\<close>: called by the host on a game in the lobby, it succeeds
  exactly when the resulting limit is at least 1.
\<close>

theorem createGame_teamLimit_unchecked:
  assumes "trim (cg_title input) \<noteq> []"
  shows "(\<exists>g. createGame d newId input = (Inr g, d\<lparr> games := games d @ [g] \<rparr>) \<and>
              game_teamLimit g = (case cg_teamLimit input of None \<Rightarrow> 4 | Some n \<Rightarrow> n)) \<and>
         (\<forall>gameId game data.
             findUnique game_id gameId (games d) = Some game \<and> game_status game = LOBBY \<longrightarrow>
             (succeeds (updateGameSettings d gameId data (game_hostId game)) \<longleftrightarrow>
                1 \<le> (case ug_teamLimit data of None \<Rightarrow> game_teamLimit game | Some n \<Rightarrow> n)))"
proof -
  have a: "\<exists>g. createGame d newId input = (Inr g, d\<lparr> games := games d @ [g] \<rparr>) \<and>
              game_teamLimit g = (case cg_teamLimit input of None \<Rightarrow> 4 | Some n \<Rightarrow> n)"
    using assms by (simp add: createGame_def Let_def)
  have b: "succeeds (updateGameSettings d gameId data (game_hostId game)) \<longleftrightarrow>
                1 \<le> (case ug_teamLimit data of None \<Rightarrow> game_teamLimit game | Some n \<Rightarrow> n)"
    if "findUnique game_id gameId (games d) = Some game" "game_status game = LOBBY"
    for gameId game data
  proof -
    have f: "find (\<lambda>g. game_id g = gameId) (games d) = Some game"
      using that(1) by (simp add: findUnique_def)
    show ?thesis using that f
      by (auto simp: updateGameSettings_def succeeds_def ensureHostAccess_def update_where_def
          Let_def split: option.splits)
  qed
  from a b show ?thesis by blast
qed

theorem createGame_teamLimit_unchecked_witness:
  "game_teamLimit (hd (rev (games (snd (createGame lobby_db ''g2''
       \<lparr> cg_hostId = ''host1'', cg_title = [0x20, 0x51, 0x20], cg_teamLimit = Some (- 3) \<rparr>))))) = - 3 \<and>
   succeeds (createGame lobby_db ''g2''
       \<lparr> cg_hostId = ''host1'', cg_title = [0x20, 0x51, 0x20], cg_teamLimit = Some (- 3) \<rparr>) \<and>
   \<not> succeeds (updateGameSettings lobby_db ''g1'' \<lparr> ug_title = None, ug_teamLimit = Some 0 \<rparr> ''host1'')"
proof -
  have h: "trim (cg_title \<lparr> cg_hostId = ''host1'', cg_title = [0x20, 0x51, 0x20],
                            cg_teamLimit = Some (- 3) \<rparr>) \<noteq> []"
    by (simp add: trim_def is_js_whitespace_def)
  have g: "findUnique game_id ''g1'' (games lobby_db) = Some (hd (games lobby_db)) \<and>
           game_status (hd (games lobby_db)) = LOBBY" "game_hostId (hd (games lobby_db)) = ''host1''"
    by (simp_all add: findUnique_def lobby_db_def)
  note t = createGame_teamLimit_unchecked [OF h, of lobby_db "''g2''"]
  from t have c: "\<exists>g. createGame lobby_db ''g2''
       \<lparr> cg_hostId = ''host1'', cg_title = [0x20, 0x51, 0x20], cg_teamLimit = Some (- 3) \<rparr>
         = (Inr g, lobby_db\<lparr> games := games lobby_db @ [g] \<rparr>) \<and> game_teamLimit g = - 3"
    by simp
  from t g have u: "succeeds (updateGameSettings lobby_db ''g1''
        \<lparr> ug_title = None, ug_teamLimit = Some 0 \<rparr> ''host1'') \<longleftrightarrow> (1::int) \<le> 0"
    by fastforce
  from c u show ?thesis
    by (auto simp: succeeds_def)
qed

section \<open>Creating a team\<close>

text \<open>
  Claim C5: for a game in the lobby, an actor that exists and a name that is not blank,
  \<open>createTeam\<close> fails with the team-limit error when the game has as many teams as
  its limit, and succeeds when it has fewer; the new team then gets the order that is the
  previous number of teams plus one.
\<close>

theorem createTeam_limit:
  assumes "trim (ct_name input) \<noteq> []"
      and "findUnique game_id (ct_gameId input) (games d) = Some game"
      and "game_status game = LOBBY"
      and "findUnique user_id (ct_actorId input) (users d) = Some actor"
  shows "(int (length (game_teams d (ct_gameId input))) = game_teamLimit game \<longrightarrow>
            createTeam d newTeamId newMemberId input =
              (Inl (Error ''Team limit reached for this game''), d)) \<and>
         (int (length (game_teams d (ct_gameId input))) < game_teamLimit game \<longrightarrow>
            (\<exists>t d'. createTeam d newTeamId newMemberId input = (Inr t, d') \<and>
               team_order t = int (length (game_teams d (ct_gameId input))) + 1 \<and>
               team_gameId t = ct_gameId input \<and>
               teams d' = teams d @ [t]))"
  using assms by (simp add: createTeam_def Let_def ensureLobbyGame_def)

theorem createTeam_limit_witness:
  "fst (createTeam lobby_db ''tD'' ''m9''
      \<lparr> ct_gameId = ''g1'', ct_name = [0x44], ct_actorId = ''p1'', ct_makeCaptain = None \<rparr>)
     = Inl (Error ''Team limit reached for this game'') \<and>
   map_option team_order (findUnique team_id ''tD'' (teams (snd
     (createTeam two_team_db ''tD'' ''m9''
      \<lparr> ct_gameId = ''g1'', ct_name = [0x44], ct_actorId = ''p1'', ct_makeCaptain = None \<rparr>))))
     = Some 3"
proof -
  let ?input = "\<lparr> ct_gameId = ''g1'', ct_name = [0x44], ct_actorId = ''p1'', ct_makeCaptain = None \<rparr>"
  have n: "trim (ct_name ?input) \<noteq> []"
    by (simp add: trim_def is_js_whitespace_def)
  have g: "findUnique game_id (ct_gameId ?input) (games lobby_db) = Some (hd (games lobby_db))"
          "findUnique game_id (ct_gameId ?input) (games two_team_db) = Some (hd (games lobby_db))"
          "game_status (hd (games lobby_db)) = LOBBY"
          "game_teamLimit (hd (games lobby_db)) = 3"
    by (simp_all add: findUnique_def lobby_db_def two_team_db_def)
  have a: "findUnique user_id (ct_actorId ?input) (users lobby_db) = Some (users lobby_db ! 2)"
          "findUnique user_id (ct_actorId ?input) (users two_team_db) = Some (users lobby_db ! 2)"
    by (simp_all add: findUnique_def lobby_db_def two_team_db_def)
  have c: "length (game_teams lobby_db (ct_gameId ?input)) = 3"
          "length (game_teams two_team_db (ct_gameId ?input)) = 2"
    by (simp_all add: game_teams_def lobby_db_def two_team_db_def)
  from createTeam_limit [OF n g(1) g(3) a(1), of "''tD''" "''m9''"] g(4) c(1)
  have full: "fst (createTeam lobby_db ''tD'' ''m9'' ?input)
                = Inl (Error ''Team limit reached for this game'')"
    by simp
  from createTeam_limit [OF n g(2) g(3) a(2), of "''tD''" "''m9''"] g(4) c(2)
  obtain t d' where r: "createTeam two_team_db ''tD'' ''m9'' ?input = (Inr t, d')"
     "team_order t = 3" "teams d' = teams two_team_db @ [t]"
    by auto
  have "team_id t = ''tD''" using r(1) n
    by (auto simp: createTeam_def Let_def split: option.splits if_splits)
  then have "findUnique team_id ''tD'' (teams d') = Some t"
    using r(3) by (simp add: findUnique_def lobby_db_def two_team_db_def)
  with full r show ?thesis by simp
qed

section \<open>The state of a clue\<close>

text \<open>
  Claim C7: for a clue and an actor that exist, \<open>resetClueState\<close> returns a clue state
  that is AVAILABLE, picked by no team and resolved by nobody, and that is how the state
  of the clue then stands in the store; whether the clue had a state before, and which,
  makes no difference. The proof goes through both branches, the one that creates the row
  and the one that updates it.
\<close>

theorem resetClueState_available:
  assumes "required_relations d"
      and "findUnique clue_id clueId (clues d) = Some c"
      and "findUnique user_id actorId (users d) = Some actor"
  shows "\<exists>s s' d'. resetClueState d newId clueId actorId = (Inr s, d') \<and>
           cs_state s = AVAILABLE \<and> cs_pickedByTeamId s = None \<and> cs_resolvedById s = None \<and>
           findFirst (\<lambda>x. cs_clueId x = clueId) (clueStates d') = Some s' \<and>
           cs_state s' = AVAILABLE \<and> cs_pickedByTeamId s' = None \<and> cs_resolvedById s' = None"
proof -
  from loadClue_ok [OF assms(1,2)] obtain ctx where ctx: "loadClue d clueId = Inr ctx" by blast
  show ?thesis
  proof (cases "findFirst (\<lambda>x. cs_clueId x = clueId) (clueStates d)")
    case None
    then show ?thesis using ctx assms(3)
      by (simp add: resetClueState_def Let_def findFirst_def find_append_None)
  next
    case (Some st)
    then have "st \<in> set (clueStates d)" by (simp add: findFirst_SomeD)
    then obtain r where r: "find (\<lambda>s. cs_id s = cs_id st) (clueStates d) = Some r"
      using find_key_member [of st "clueStates d" cs_id] by blast
    show ?thesis using ctx assms(3) Some r
      by (simp add: resetClueState_def update_where_def findFirst_def find_map_upd)
  qed
qed

theorem resetClueState_available_witness:
  "map_option cs_state (findFirst (\<lambda>x. cs_clueId x = ''q1'')
      (clueStates (snd (resetClueState play_db ''s1'' ''q1'' ''op1'')))) = Some AVAILABLE \<and>
   map_option cs_state (findFirst (\<lambda>x. cs_clueId x = ''q1'')
      (clueStates (snd (resetClueState resolved_db ''s1'' ''q1'' ''op1'')))) = Some AVAILABLE"
proof -
  have c: "findUnique clue_id ''q1'' (clues play_db) = Some (hd (clues play_db))"
          "findUnique clue_id ''q1'' (clues resolved_db) = Some (hd (clues play_db))"
    by (simp_all add: findUnique_def play_db_def resolved_db_def)
  have u: "findUnique user_id ''op1'' (users play_db) = Some (users play_db ! 1)"
          "findUnique user_id ''op1'' (users resolved_db) = Some (users play_db ! 1)"
    by (simp_all add: findUnique_def play_db_def resolved_db_def)
  from resetClueState_available [OF required_relations_play_db c(1) u(1), of "''s1''"]
  have a: "map_option cs_state (findFirst (\<lambda>x. cs_clueId x = ''q1'')
      (clueStates (snd (resetClueState play_db ''s1'' ''q1'' ''op1'')))) = Some AVAILABLE"
    by auto
  from resetClueState_available [OF required_relations_resolved_db c(2) u(2), of "''s1''"]
  have b: "map_option cs_state (findFirst (\<lambda>x. cs_clueId x = ''q1'')
      (clueStates (snd (resetClueState resolved_db ''s1'' ''q1'' ''op1'')))) = Some AVAILABLE"
    by auto
  from a b show ?thesis by simp
qed

text \<open>
  Claim C8: \<open>updateClueState\<close> succeeds if and only if the clue is there, a user with
  the identifier \<^verbatim>\<open>resolvedById\<close> is there, whatever the role, and the clue has a state
  row. When it succeeds the state and \<^verbatim>\<open>resolvedById\<close> of that row are the values given,
  whatever the state was and whatever the new one is, and the table of clue states has as
  many rows as before. When it fails the store is as it was.
\<close>

theorem updateClueState_permissive:
  assumes "required_relations d"
  shows "(succeeds (updateClueState d input) \<longleftrightarrow>
            findUnique clue_id (uc_clueId input) (clues d) \<noteq> None \<and>
            findUnique user_id (uc_resolvedById input) (users d) \<noteq> None \<and>
            findFirst (\<lambda>s. cs_clueId s = uc_clueId input) (clueStates d) \<noteq> None) \<and>
         (\<forall>s c d'. updateClueState d input = (Inr (s, c), d') \<longrightarrow>
            cs_state s = uc_state input \<and> cs_resolvedById s = Some (uc_resolvedById input) \<and>
            map_option cs_state (findFirst (\<lambda>s. cs_clueId s = uc_clueId input) (clueStates d'))
              = Some (uc_state input) \<and>
            map_option cs_resolvedById (findFirst (\<lambda>s. cs_clueId s = uc_clueId input) (clueStates d'))
              = Some (Some (uc_resolvedById input)) \<and>
            length (clueStates d') = length (clueStates d)) \<and>
         (\<forall>e d'. updateClueState d input = (Inl e, d') \<longrightarrow> d' = d)"
proof -
  have fail: "\<forall>e d'. updateClueState d input = (Inl e, d') \<longrightarrow> d' = d"
    by (auto simp: updateClueState_def Let_def update_where_def split: sum.splits option.splits)
  have post: "\<forall>s c d'. updateClueState d input = (Inr (s, c), d') \<longrightarrow>
            cs_state s = uc_state input \<and> cs_resolvedById s = Some (uc_resolvedById input) \<and>
            map_option cs_state (findFirst (\<lambda>s. cs_clueId s = uc_clueId input) (clueStates d'))
              = Some (uc_state input) \<and>
            map_option cs_resolvedById (findFirst (\<lambda>s. cs_clueId s = uc_clueId input) (clueStates d'))
              = Some (Some (uc_resolvedById input)) \<and>
            length (clueStates d') = length (clueStates d)"
    by (auto simp: updateClueState_def Let_def update_where_def findFirst_def find_map_upd
        dest: findFirst_SomeD
        split: sum.splits option.splits)
  have iff: "succeeds (updateClueState d input) \<longleftrightarrow>
            findUnique clue_id (uc_clueId input) (clues d) \<noteq> None \<and>
            findUnique user_id (uc_resolvedById input) (users d) \<noteq> None \<and>
            findFirst (\<lambda>s. cs_clueId s = uc_clueId input) (clueStates d) \<noteq> None"
  proof (cases "findUnique clue_id (uc_clueId input) (clues d)")
    case None
    then show ?thesis by (simp add: updateClueState_def Let_def loadClue_def succeeds_def)
  next
    case (Some c)
    from loadClue_ok [OF assms Some] obtain ctx where ctx: "loadClue d (uc_clueId input) = Inr ctx"
      by blast
    show ?thesis using Some ctx
      by (auto simp: updateClueState_def Let_def succeeds_def update_where_def find_None_iff
          dest!: findFirst_SomeD split: option.splits sum.splits)
  qed
  from iff post fail show ?thesis by blast
qed

theorem updateClueState_permissive_witness:
  "succeeds (updateClueState resolved_db
      \<lparr> uc_clueId = ''q1'', uc_state = AVAILABLE, uc_resolvedById = ''p1'' \<rparr>) \<and>
   \<not> succeeds (updateClueState play_db
      \<lparr> uc_clueId = ''q1'', uc_state = PENDING, uc_resolvedById = ''p1'' \<rparr>)"
proof -
  have a: "findUnique clue_id ''q1'' (clues resolved_db) \<noteq> None"
          "findUnique user_id ''p1'' (users resolved_db) \<noteq> None"
          "findFirst (\<lambda>s. cs_clueId s = ''q1'') (clueStates resolved_db) \<noteq> None"
          "findFirst (\<lambda>s. cs_clueId s = ''q1'') (clueStates play_db) = None"
    by (simp_all add: findUnique_def findFirst_def play_db_def resolved_db_def)
  from updateClueState_permissive [OF required_relations_resolved_db,
      of "\<lparr> uc_clueId = ''q1'', uc_state = AVAILABLE, uc_resolvedById = ''p1'' \<rparr>"] a
  have x: "succeeds (updateClueState resolved_db
      \<lparr> uc_clueId = ''q1'', uc_state = AVAILABLE, uc_resolvedById = ''p1'' \<rparr>)"
    by simp
  from updateClueState_permissive [OF required_relations_play_db,
      of "\<lparr> uc_clueId = ''q1'', uc_state = PENDING, uc_resolvedById = ''p1'' \<rparr>"] a
  have y: "\<not> succeeds (updateClueState play_db
      \<lparr> uc_clueId = ''q1'', uc_state = PENDING, uc_resolvedById = ''p1'' \<rparr>)"
    by simp
  from x y show ?thesis by simp
qed

section \<open>Selecting a clue\<close>












section \<open>Validating a response\<close>

lemma validateResponse_tx_commit:
  assumes resp: "findUnique resp_id (vr_responseId input) (teamResponses d) = Some response"
      and team: "delta = 0 \<or> findUnique team_id (resp_teamId response) (teams d) \<noteq> None"
      and r': "r' = response\<lparr> resp_isCorrect := Some (vr_isCorrect input),
                           resp_awardedValue := Some delta,
                           resp_validatedById := Some (vr_operatorId input),
                           resp_validatedAt := Some now \<rparr>"
  shows "\<exists>d'. validateResponse_tx input response delta now d = Inr (r', d') \<and>
           findUnique resp_id (vr_responseId input) (teamResponses d') = Some r' \<and>
           score_of d' (resp_teamId response) =
             map_option (\<lambda>s. s + delta) (score_of d (resp_teamId response)) \<and>
           users d' = users d \<and> clues d' = clues d \<and>
           (case findFirst (\<lambda>s. cs_clueId s = resp_clueId response) (clueStates d) of
              None \<Rightarrow> clueStates d' = clueStates d
            | Some cs \<Rightarrow>
                map_option (\<lambda>s. (cs_state s, cs_resolvedById s))
                  (findFirst (\<lambda>s. cs_clueId s = resp_clueId response) (clueStates d')) =
                Some (if vr_isCorrect input then CORRECT else INCORRECT, Some (vr_operatorId input)))"
proof -
  have r: "find (\<lambda>r. resp_id r = vr_responseId input) (teamResponses d) = Some response"
    using resp by (simp add: findUnique_def)
  have rid: "resp_id response = vr_responseId input"
    using resp by (simp add: findUnique_SomeD)
  have t: "delta \<noteq> 0 \<Longrightarrow> \<exists>team. find (\<lambda>t. team_id t = resp_teamId response) (teams d) = Some team"
    using team by (auto simp: findUnique_def)
  have sc: "map_option team_score
              (find (\<lambda>t. team_id t = i) (map (\<lambda>x. if team_id x = i then x\<lparr> team_score := team_score x + delta \<rparr> else x) ts))
            = map_option (\<lambda>s. s + delta) (map_option team_score (find (\<lambda>t. team_id t = i) ts))" for i ts
    by (induction ts) auto
  show ?thesis
  proof (cases "findFirst (\<lambda>s. cs_clueId s = resp_clueId response) (clueStates d)")
    case None
    show ?thesis
    proof (cases "delta = 0")
      case True
      then show ?thesis using r rid None r'
        by (simp add: validateResponse_tx_def update_where_def findUnique_def find_map_upd Let_def
            score_of_def option.map_ident)
    next
      case False
      with t obtain team where "find (\<lambda>t. team_id t = resp_teamId response) (teams d) = Some team"
        by blast
      then show ?thesis using r rid None r' False sc [of "resp_teamId response" "teams d"]
        by (simp add: validateResponse_tx_def update_where_def findUnique_def Let_def
            find_map_upd [where q="\<lambda>r. resp_id r = vr_responseId input"] score_of_def)
    qed
  next
    case (Some cs)
    then have "cs \<in> set (clueStates d)" by (simp add: findFirst_SomeD)
    then obtain x where x: "find (\<lambda>s. cs_id s = cs_id cs) (clueStates d) = Some x"
      using find_key_member [of cs "clueStates d" cs_id] by blast
    have f: "find (\<lambda>s. cs_clueId s = resp_clueId response) (clueStates d) = Some cs"
      using Some by (simp add: findFirst_def)
    show ?thesis
    proof (cases "delta = 0")
      case True
      then show ?thesis using r rid Some x f r'
        by (simp add: validateResponse_tx_def update_where_def findUnique_def findFirst_def
            find_map_upd Let_def score_of_def option.map_ident)
    next
      case False
      with t obtain team where "find (\<lambda>t. team_id t = resp_teamId response) (teams d) = Some team"
        by blast
      then show ?thesis using r rid Some x f r' False sc [of "resp_teamId response" "teams d"]
        by (simp add: validateResponse_tx_def update_where_def findUnique_def findFirst_def Let_def
            find_map_upd [where q="\<lambda>r. resp_id r = vr_responseId input"]
            find_map_upd [where q="\<lambda>s. cs_clueId s = resp_clueId response"] score_of_def)
    qed
  qed
qed

lemma validateResponse_tx_abort:
  assumes "findUnique resp_id (vr_responseId input) (teamResponses d) = Some response"
      and "delta \<noteq> 0"
      and "findUnique team_id (resp_teamId response) (teams d) = None"
  shows "validateResponse_tx input response delta now d = Inl RecordNotFound"
  using assms
  by (simp add: validateResponse_tx_def update_where_def findUnique_def Let_def)


lemma validateResponse_effect:
  assumes op: "findUnique user_id (vr_operatorId input) (users d) = Some operator"
      and role: "user_role operator = OPERATOR \<or> user_role operator = HOST"
      and resp: "findUnique resp_id (vr_responseId input) (teamResponses d) = Some response"
      and clue: "findUnique clue_id (resp_clueId response) (clues d) = Some clue"
      and delta: "delta = scoreDelta (vr_awardedValue input) (vr_isCorrect input) clue"
      and team: "delta = 0 \<or> findUnique team_id (resp_teamId response) (teams d) \<noteq> None"
      and r': "r' = response\<lparr> resp_isCorrect := Some (vr_isCorrect input),
                           resp_awardedValue := Some delta,
                           resp_validatedById := Some (vr_operatorId input),
                           resp_validatedAt := Some now \<rparr>"
  shows "\<exists>d'. validateResponse d now input = (Inr r', d') \<and>
           findUnique resp_id (vr_responseId input) (teamResponses d') = Some r' \<and>
           score_of d' (resp_teamId response) =
             map_option (\<lambda>s. s + delta) (score_of d (resp_teamId response)) \<and>
           users d' = users d \<and> clues d' = clues d \<and>
           (case findFirst (\<lambda>s. cs_clueId s = resp_clueId response) (clueStates d) of
              None \<Rightarrow> clueStates d' = clueStates d
            | Some cs \<Rightarrow>
                map_option (\<lambda>s. (cs_state s, cs_resolvedById s))
                  (findFirst (\<lambda>s. cs_clueId s = resp_clueId response) (clueStates d')) =
                Some (if vr_isCorrect input then CORRECT else INCORRECT, Some (vr_operatorId input)))"
proof -
  from validateResponse_tx_commit [OF resp team r'] obtain d'
    where tx: "validateResponse_tx input response delta now d = Inr (r', d')"
      and post: "findUnique resp_id (vr_responseId input) (teamResponses d') = Some r'"
           "score_of d' (resp_teamId response) =
             map_option (\<lambda>s. s + delta) (score_of d (resp_teamId response))"
           "users d' = users d" "clues d' = clues d"
           "(case findFirst (\<lambda>s. cs_clueId s = resp_clueId response) (clueStates d) of
              None \<Rightarrow> clueStates d' = clueStates d
            | Some cs \<Rightarrow>
                map_option (\<lambda>s. (cs_state s, cs_resolvedById s))
                  (findFirst (\<lambda>s. cs_clueId s = resp_clueId response) (clueStates d')) =
                Some (if vr_isCorrect input then CORRECT else INCORRECT, Some (vr_operatorId input)))"
    by blast
  have "validateResponse d now input = (Inr r', d')"
    using op role resp clue tx delta
    by (auto simp: validateResponse_def ensureOperator_def transaction_def)
  with post show ?thesis by blast
qed

text \<open>
  Claim C2: when the operator exists with role OPERATOR or HOST and the response exists
  (with its clue and its team, which the store's foreign keys keep),
  \<open>validateResponse\<close> succeeds; the delta is the awarded value when one is given,
  otherwise the value of the clue when the answer is correct and its negation when not;
  the score of the team grows by exactly the delta, and the row of the response, as
  returned and as stored, carries \<^verbatim>\<open>isCorrect\<close> and the delta as its awarded value.
\<close>

theorem validateResponse_score_delta:
  assumes "findUnique user_id (vr_operatorId input) (users d) = Some operator"
      and "user_role operator = OPERATOR \<or> user_role operator = HOST"
      and "findUnique resp_id (vr_responseId input) (teamResponses d) = Some response"
      and "findUnique clue_id (resp_clueId response) (clues d) = Some clue"
      and "findUnique team_id (resp_teamId response) (teams d) = Some team"
      and "delta = (case vr_awardedValue input of
                      Some v \<Rightarrow> v
                    | None \<Rightarrow> if vr_isCorrect input then clue_value clue else - clue_value clue)"
  shows "\<exists>r d'. validateResponse d now input = (Inr r, d') \<and>
           score_of d' (resp_teamId response) = Some (team_score team + delta) \<and>
           findUnique resp_id (vr_responseId input) (teamResponses d') = Some r \<and>
           resp_isCorrect r = Some (vr_isCorrect input) \<and>
           resp_awardedValue r = Some delta"
proof -
  have d: "delta = scoreDelta (vr_awardedValue input) (vr_isCorrect input) clue"
    using assms(6) by (simp add: scoreDelta_def)
  have t: "delta = 0 \<or> findUnique team_id (resp_teamId response) (teams d) \<noteq> None"
    using assms(5) by simp
  have s: "score_of d (resp_teamId response) = Some (team_score team)"
    using assms(5) by (simp add: score_of_def)
  from validateResponse_effect [OF assms(1-4) d t refl, of now] s
  show ?thesis by auto
qed

text \<open>
  Claim C9: \<open>validateResponse\<close> does not ask that the response is not yet validated.
  Two validations in a row of the same response as correct, with no awarded value given,
  both succeed, and the score of the team has grown by twice the value of the clue.
\<close>

theorem validateResponse_twice:
  assumes "findUnique user_id (vr_operatorId input) (users d) = Some operator"
      and "user_role operator = OPERATOR \<or> user_role operator = HOST"
      and "findUnique resp_id (vr_responseId input) (teamResponses d) = Some response"
      and "findUnique clue_id (resp_clueId response) (clues d) = Some clue"
      and "findUnique team_id (resp_teamId response) (teams d) = Some team"
      and "vr_isCorrect input" and "vr_awardedValue input = None"
  shows "\<exists>r1 d1 r2 d2.
           validateResponse d now1 input = (Inr r1, d1) \<and>
           validateResponse d1 now2 input = (Inr r2, d2) \<and>
           score_of d1 (resp_teamId response) = Some (team_score team + clue_value clue) \<and>
           score_of d2 (resp_teamId response) = Some (team_score team + 2 * clue_value clue)"
proof -
  define delta where "delta = scoreDelta (vr_awardedValue input) (vr_isCorrect input) clue"
  have v: "delta = clue_value clue"
    using assms(6,7) by (simp add: delta_def scoreDelta_def)
  have s: "score_of d (resp_teamId response) = Some (team_score team)"
    using assms(5) by (simp add: score_of_def)
  have t: "delta = 0 \<or> findUnique team_id (resp_teamId response) (teams d) \<noteq> None"
    using assms(5) by simp
  define r1 where "r1 = response\<lparr> resp_isCorrect := Some (vr_isCorrect input),
                           resp_awardedValue := Some delta,
                           resp_validatedById := Some (vr_operatorId input),
                           resp_validatedAt := Some now1 \<rparr>"
  from validateResponse_effect [OF assms(1-4) delta_def t r1_def] obtain d1
    where one: "validateResponse d now1 input = (Inr r1, d1)"
      and r1: "findUnique resp_id (vr_responseId input) (teamResponses d1) = Some r1"
      and s1: "score_of d1 (resp_teamId response) =
                 map_option (\<lambda>s. s + delta) (score_of d (resp_teamId response))"
      and same: "users d1 = users d" "clues d1 = clues d"
    by blast
  have ids: "resp_teamId r1 = resp_teamId response" "resp_clueId r1 = resp_clueId response"
    by (simp_all add: r1_def)
  have op1: "findUnique user_id (vr_operatorId input) (users d1) = Some operator"
    using assms(1) same by simp
  have c1: "findUnique clue_id (resp_clueId r1) (clues d1) = Some clue"
    using assms(4) same ids by simp
  have s1': "score_of d1 (resp_teamId response) = Some (team_score team + clue_value clue)"
    using s1 s v by simp
  then have t1: "delta = 0 \<or> findUnique team_id (resp_teamId r1) (teams d1) \<noteq> None"
    using ids by (auto simp: score_of_def)
  define r2 where "r2 = r1\<lparr> resp_isCorrect := Some (vr_isCorrect input),
                           resp_awardedValue := Some delta,
                           resp_validatedById := Some (vr_operatorId input),
                           resp_validatedAt := Some now2 \<rparr>"
  from validateResponse_effect [OF op1 assms(2) r1 c1 delta_def t1 r2_def] obtain d2
    where two: "validateResponse d1 now2 input = (Inr r2, d2)"
      and s2: "score_of d2 (resp_teamId r1) =
                 map_option (\<lambda>s. s + delta) (score_of d1 (resp_teamId r1))"
    by blast
  have "score_of d2 (resp_teamId response) = Some (team_score team + 2 * clue_value clue)"
    using s2 s1' ids v by simp
  with one two s1' show ?thesis by blast
qed

text \<open>
  Claim C3: \<open>validateResponse\<close> is all-or-nothing. When it fails, before or inside
  the transaction, the store is as it was: no write persists. When it succeeds the three
  changes are there together: the row of the response is updated, the score of the team
  has grown by the delta (a team is there whenever the delta is not zero), and the state
  of the clue, when the clue has one, is CORRECT or INCORRECT and resolved by the
  operator. In \<open>orphan_db\<close> the transaction fails at its second write, after the
  response was updated, and the store is unchanged.
\<close>

theorem validateResponse_atomic:
  "(\<forall>e d'. validateResponse d now input = (Inl e, d') \<longrightarrow> d' = d) \<and>
   (\<forall>r d'. validateResponse d now input = (Inr r, d') \<longrightarrow>
      (\<exists>response clue delta.
         findUnique resp_id (vr_responseId input) (teamResponses d) = Some response \<and>
         findUnique clue_id (resp_clueId response) (clues d) = Some clue \<and>
         delta = scoreDelta (vr_awardedValue input) (vr_isCorrect input) clue \<and>
         findUnique resp_id (vr_responseId input) (teamResponses d') = Some r \<and>
         resp_isCorrect r = Some (vr_isCorrect input) \<and>
         resp_awardedValue r = Some delta \<and>
         resp_validatedById r = Some (vr_operatorId input) \<and>
         score_of d' (resp_teamId response) =
           map_option (\<lambda>s. s + delta) (score_of d (resp_teamId response)) \<and>
         (delta \<noteq> 0 \<longrightarrow> score_of d (resp_teamId response) \<noteq> None) \<and>
         (\<forall>cs. findFirst (\<lambda>s. cs_clueId s = resp_clueId response) (clueStates d) = Some cs \<longrightarrow>
            map_option (\<lambda>s. (cs_state s, cs_resolvedById s))
              (findFirst (\<lambda>s. cs_clueId s = resp_clueId response) (clueStates d')) =
            Some (if vr_isCorrect input then CORRECT else INCORRECT, Some (vr_operatorId input)))))"
proof (intro conjI allI impI)
  fix e d'
  assume "validateResponse d now input = (Inl e, d')"
  then show "d' = d"
    by (auto simp: validateResponse_def transaction_def split: option.splits sum.splits)
next
  fix r d'
  assume ok: "validateResponse d now input = (Inr r, d')"
  then obtain operator response clue
    where op: "findUnique user_id (vr_operatorId input) (users d) = Some operator"
              "user_role operator = OPERATOR \<or> user_role operator = HOST"
      and resp: "findUnique resp_id (vr_responseId input) (teamResponses d) = Some response"
      and clue: "findUnique clue_id (resp_clueId response) (clues d) = Some clue"
    by (auto simp: validateResponse_def ensureOperator_def split: option.splits if_splits)
  define delta where "delta = scoreDelta (vr_awardedValue input) (vr_isCorrect input) clue"
  have t: "delta = 0 \<or> findUnique team_id (resp_teamId response) (teams d) \<noteq> None"
  proof (rule ccontr)
    assume "\<not> ?thesis"
    then have "validateResponse_tx input response delta now d = Inl RecordNotFound"
      using validateResponse_tx_abort [OF resp, of delta now] by simp
    then have "fst (validateResponse d now input) = Inl RecordNotFound"
      using op resp clue
      by (auto simp: validateResponse_def ensureOperator_def transaction_def delta_def)
    with ok show False by simp
  qed
  define r' where "r' = response\<lparr> resp_isCorrect := Some (vr_isCorrect input),
                           resp_awardedValue := Some delta,
                           resp_validatedById := Some (vr_operatorId input),
                           resp_validatedAt := Some now \<rparr>"
  from validateResponse_effect [OF op resp clue delta_def t r'_def] ok
  have post: "r = r'"
       "findUnique resp_id (vr_responseId input) (teamResponses d') = Some r'"
       "score_of d' (resp_teamId response) =
             map_option (\<lambda>s. s + delta) (score_of d (resp_teamId response))"
       "(case findFirst (\<lambda>s. cs_clueId s = resp_clueId response) (clueStates d) of
              None \<Rightarrow> clueStates d' = clueStates d
            | Some cs \<Rightarrow>
                map_option (\<lambda>s. (cs_state s, cs_resolvedById s))
                  (findFirst (\<lambda>s. cs_clueId s = resp_clueId response) (clueStates d')) =
                Some (if vr_isCorrect input then CORRECT else INCORRECT, Some (vr_operatorId input)))"
    by auto
  have sc: "delta \<noteq> 0 \<longrightarrow> score_of d (resp_teamId response) \<noteq> None"
    using t by (auto simp: score_of_def)
  have rr: "resp_isCorrect r = Some (vr_isCorrect input)" "resp_awardedValue r = Some delta"
     "resp_validatedById r = Some (vr_operatorId input)"
    using post(1) by (simp_all add: r'_def)
  show "\<exists>response clue delta.
         findUnique resp_id (vr_responseId input) (teamResponses d) = Some response \<and>
         findUnique clue_id (resp_clueId response) (clues d) = Some clue \<and>
         delta = scoreDelta (vr_awardedValue input) (vr_isCorrect input) clue \<and>
         findUnique resp_id (vr_responseId input) (teamResponses d') = Some r \<and>
         resp_isCorrect r = Some (vr_isCorrect input) \<and>
         resp_awardedValue r = Some delta \<and>
         resp_validatedById r = Some (vr_operatorId input) \<and>
         score_of d' (resp_teamId response) =
           map_option (\<lambda>s. s + delta) (score_of d (resp_teamId response)) \<and>
         (delta \<noteq> 0 \<longrightarrow> score_of d (resp_teamId response) \<noteq> None) \<and>
         (\<forall>cs. findFirst (\<lambda>s. cs_clueId s = resp_clueId response) (clueStates d) = Some cs \<longrightarrow>
            map_option (\<lambda>s. (cs_state s, cs_resolvedById s))
              (findFirst (\<lambda>s. cs_clueId s = resp_clueId response) (clueStates d')) =
            Some (if vr_isCorrect input then CORRECT else INCORRECT, Some (vr_operatorId input)))"
    using resp clue delta_def post(2-) rr sc
    by (intro exI [of _ response] exI [of _ clue] exI [of _ delta]) (auto simp: post(1))
qed


text \<open>The rows of \<open>play_db\<close> that a validation of the answer \<open>a1\<close> reads.\<close>

lemma play_db_validation_facts:
  "findUnique user_id ''op1'' (users play_db) = Some (users play_db ! 1)"
  "user_role (users play_db ! 1) = OPERATOR \<or> user_role (users play_db ! 1) = HOST"
  "findUnique resp_id ''a1'' (teamResponses play_db) = Some (hd (teamResponses play_db))"
  "findUnique clue_id (resp_clueId (hd (teamResponses play_db))) (clues play_db) = Some (hd (clues play_db))"
  "findUnique team_id (resp_teamId (hd (teamResponses play_db))) (teams play_db) = Some (hd (teams play_db))"
  "resp_teamId (hd (teamResponses play_db)) = ''tA''"
  "clue_value (hd (clues play_db)) = 200"
  "team_score (hd (teams play_db)) = 0"
  by (simp_all add: findUnique_def play_db_def)

theorem validateResponse_score_delta_witness:
  "score_of (snd (validateResponse play_db 7
      \<lparr> vr_responseId = ''a1'', vr_isCorrect = False, vr_awardedValue = None, vr_operatorId = ''op1'' \<rparr>))
      ''tA'' = Some (- 200) \<and>
   score_of (snd (validateResponse play_db 7
      \<lparr> vr_responseId = ''a1'', vr_isCorrect = False, vr_awardedValue = Some 50, vr_operatorId = ''op1'' \<rparr>))
      ''tA'' = Some 50"
proof -
  let ?i1 = "\<lparr> vr_responseId = ''a1'', vr_isCorrect = False, vr_awardedValue = None, vr_operatorId = ''op1'' \<rparr>"
  let ?i2 = "\<lparr> vr_responseId = ''a1'', vr_isCorrect = False, vr_awardedValue = Some 50, vr_operatorId = ''op1'' \<rparr>"
  note f = play_db_validation_facts
  have a: "score_of (snd (validateResponse play_db 7 ?i1)) ''tA'' = Some (- 200)"
    using validateResponse_score_delta [of ?i1 play_db "users play_db ! 1"
        "hd (teamResponses play_db)" "hd (clues play_db)" "hd (teams play_db)" "- 200" 7] f
    by auto
  have b: "score_of (snd (validateResponse play_db 7 ?i2)) ''tA'' = Some 50"
    using validateResponse_score_delta [of ?i2 play_db "users play_db ! 1"
        "hd (teamResponses play_db)" "hd (clues play_db)" "hd (teams play_db)" 50 7] f
    by auto
  from a b show ?thesis by simp
qed

theorem validateResponse_twice_witness:
  "score_of (snd (validateResponse
      (snd (validateResponse play_db 7
        \<lparr> vr_responseId = ''a1'', vr_isCorrect = True, vr_awardedValue = None, vr_operatorId = ''op1'' \<rparr>))
      8 \<lparr> vr_responseId = ''a1'', vr_isCorrect = True, vr_awardedValue = None, vr_operatorId = ''op1'' \<rparr>))
      ''tA'' = Some 400"
proof -
  let ?i = "\<lparr> vr_responseId = ''a1'', vr_isCorrect = True, vr_awardedValue = None, vr_operatorId = ''op1'' \<rparr>"
  note f = play_db_validation_facts
  show ?thesis
    using validateResponse_twice [of ?i play_db "users play_db ! 1"
        "hd (teamResponses play_db)" "hd (clues play_db)" "hd (teams play_db)" 7 8] f
    by auto
qed

theorem validateResponse_atomic_witness:
  "fst (validateResponse orphan_db 7
      \<lparr> vr_responseId = ''a1'', vr_isCorrect = True, vr_awardedValue = None, vr_operatorId = ''op1'' \<rparr>)
     = Inl RecordNotFound \<and>
   snd (validateResponse orphan_db 7
      \<lparr> vr_responseId = ''a1'', vr_isCorrect = True, vr_awardedValue = None, vr_operatorId = ''op1'' \<rparr>)
     = orphan_db"
proof -
  let ?i = "\<lparr> vr_responseId = ''a1'', vr_isCorrect = True, vr_awardedValue = None, vr_operatorId = ''op1'' \<rparr>"
  have r: "findUnique resp_id (vr_responseId ?i) (teamResponses orphan_db) = Some (hd (teamResponses play_db))"
    by (simp add: findUnique_def orphan_db_def play_db_def)
  have t: "findUnique team_id (resp_teamId (hd (teamResponses play_db))) (teams orphan_db) = None"
    by (simp add: findUnique_def orphan_db_def play_db_def)
  have tx: "validateResponse_tx ?i (hd (teamResponses play_db)) 200 7 orphan_db = Inl RecordNotFound"
    by (rule validateResponse_tx_abort [OF r _ t]) simp
  have u: "findUnique user_id ''op1'' (users orphan_db) = Some (users play_db ! 1)"
          "user_role (users play_db ! 1) = OPERATOR"
          "findUnique clue_id (resp_clueId (hd (teamResponses play_db))) (clues orphan_db)
             = Some (hd (clues play_db))"
          "clue_value (hd (clues play_db)) = 200"
    by (simp_all add: findUnique_def orphan_db_def play_db_def)
  have a: "fst (validateResponse orphan_db 7 ?i) = Inl RecordNotFound"
    using r u tx
    by (simp add: validateResponse_def ensureOperator_def transaction_def scoreDelta_def)
  then obtain d' where "validateResponse orphan_db 7 ?i = (Inl RecordNotFound, d')"
    by (cases "validateResponse orphan_db 7 ?i") auto
  with validateResponse_atomic [of orphan_db 7 ?i] a show ?thesis by auto
qed

section \<open>Removing a team\<close>

lemma new_order_id [simp]: "team_id (new_order ps x) = team_id x"
  by (simp add: new_order_def split: option.splits)

lemma new_order_gameId [simp]: "team_gameId (new_order ps x) = team_gameId x"
  by (simp add: new_order_def split: option.splits)

lemma new_order_Cons:
  assumes "find (\<lambda>p. team_id (snd p) = team_id t) ps = None"
  shows "new_order ps (if team_id x = team_id t then x\<lparr> team_order := int i + 1 \<rparr> else x)
           = new_order ((i, t) # ps) x"
  using assms by (simp add: new_order_def)

lemma find_None_distinct:
  assumes "distinct (map f (p # ps))"
  shows "find (\<lambda>q. f q = f p) ps = None"
proof -
  have "f p \<notin> f ` set ps" using assms by simp
  then have "\<And>q. q \<in> set ps \<Longrightarrow> f q \<noteq> f p" by (metis imageI)
  then show ?thesis by (simp add: find_None_iff)
qed

lemma renumber_ok:
  assumes "distinct (map (\<lambda>p. team_id (snd p)) ps)"
      and "\<forall>p\<in>set ps. \<exists>x\<in>set (teams d). team_id x = team_id (snd p)"
  shows "renumber ps d = (None, d\<lparr> teams := map (new_order ps) (teams d) \<rparr>)"
  using assms
proof (induction ps arbitrary: d)
  case Nil
  have "new_order [] = (\<lambda>x. x)"
    by (simp add: new_order_def fun_eq_iff)
  then show ?case by simp
next
  case (Cons p ps)
  obtain i t where p: "p = (i, t)" by (cases p)
  define upd :: "Team \<Rightarrow> Team" where "upd = (\<lambda>x. if team_id x = team_id t then x\<lparr> team_order := int i + 1 \<rparr> else x)"
  have upd_id: "team_id (upd x) = team_id x" for x by (simp add: upd_def)
  from Cons.prems(2) p have "\<exists>x\<in>set (teams d). team_id x = team_id t" by simp
  then obtain r where r: "find (\<lambda>x. team_id x = team_id t) (teams d) = Some r"
    by (cases "find (\<lambda>x. team_id x = team_id t) (teams d)") (auto simp: find_None_iff)
  have none: "find (\<lambda>q. team_id (snd q) = team_id t) ps = None"
    using find_None_distinct [of "\<lambda>p. team_id (snd p)" p ps] Cons.prems(1) p by simp
  have d1: "distinct (map (\<lambda>p. team_id (snd p)) ps)"
    using Cons.prems(1) by simp
  have m1: "\<forall>q\<in>set ps. \<exists>x\<in>set (teams (d\<lparr> teams := map upd (teams d) \<rparr>)). team_id x = team_id (snd q)"
  proof
    fix q assume "q \<in> set ps"
    with Cons.prems(2) obtain x where "x \<in> set (teams d)" "team_id x = team_id (snd q)" by auto
    then have "upd x \<in> set (map upd (teams d))" "team_id (upd x) = team_id (snd q)"
      by (simp_all add: upd_id)
    then show "\<exists>x\<in>set (teams (d\<lparr> teams := map upd (teams d) \<rparr>)). team_id x = team_id (snd q)"
      by auto
  qed
  have ih: "renumber ps (d\<lparr> teams := map upd (teams d) \<rparr>)
          = (None, d\<lparr> teams := map (new_order ps) (map upd (teams d)) \<rparr>)"
    using Cons.IH [OF d1 m1] by simp
  have "map (new_order ps) (map upd (teams d)) = map (new_order ((i, t) # ps)) (teams d)"
    using new_order_Cons [OF none] by (simp add: upd_def)
  with ih r show ?case
    by (simp add: p update_where_def upd_def)
qed


lemma find_enumerate:
  assumes "distinct (map team_id ts)" and "j < length ts"
  shows "find (\<lambda>p. team_id (snd p) = team_id (ts ! j)) (enumerate n ts) = Some (n + j, ts ! j)"
  using assms
proof (induction ts arbitrary: n j)
  case Nil
  then show ?case by simp
next
  case (Cons a ts)
  show ?case
  proof (cases j)
    case 0
    then show ?thesis by simp
  next
    case (Suc j')
    then have j': "j' < length ts" using Cons.prems(2) by simp
    then have "ts ! j' \<in> set ts" by simp
    then have ne: "team_id a \<noteq> team_id (ts ! j')"
      using Cons.prems(1) by (metis distinct.simps(2) imageI list.simps(9) set_map)
    from Cons.IH [of j' "Suc n"] Cons.prems(1) j'
    have "find (\<lambda>p. team_id (snd p) = team_id (ts ! j')) (enumerate (Suc n) ts)
            = Some (Suc n + j', ts ! j')"
      by simp
    with ne Suc show ?thesis by simp
  qed
qed

lemma renumbered_orders:
  assumes "distinct (map team_id ts)"
  shows "map team_order (map (new_order (enumerate 0 ts)) ts) = map (\<lambda>j. int j + 1) [0..<length ts]"
proof (rule nth_equalityI)
  show "length (map team_order (map (new_order (enumerate 0 ts)) ts))
          = length (map (\<lambda>j. int j + 1) [0..<length ts])"
    by simp
next
  fix j assume "j < length (map team_order (map (new_order (enumerate 0 ts)) ts))"
  then have j: "j < length ts" by simp
  from find_enumerate [OF assms j, of 0]
  have "team_order (new_order (enumerate 0 ts) (ts ! j)) = int j + 1"
    by (simp add: new_order_def)
  with j show "map team_order (map (new_order (enumerate 0 ts)) ts) ! j
                 = map (\<lambda>j. int j + 1) [0..<length ts] ! j"
    by simp
qed

lemma new_order_clear: "(new_order ps x)\<lparr> team_order := 0 \<rparr> = x\<lparr> team_order := 0 \<rparr>"
  by (simp add: new_order_def split: option.splits)

lemma new_order_absent:
  assumes "\<And>p. p \<in> set ps \<Longrightarrow> team_id (snd p) \<noteq> team_id x"
  shows "new_order ps x = x"
proof -
  have "\<not> (\<exists>p. p \<in> set ps \<and> team_id (snd p) = team_id x)"
    using assms by blast
  then have "find (\<lambda>p. team_id (snd p) = team_id x) ps = None"
    unfolding find_None_iff .
  then show ?thesis by (simp add: new_order_def)
qed

lemma new_order_nth:
  assumes "distinct (map team_id ts)" and "j < length ts"
  shows "team_order (new_order (enumerate 0 ts) (ts ! j)) = int j + 1"
  using find_enumerate [OF assms, of 0] by (simp add: new_order_def)

lemma same_id_same_row:
  assumes "distinct (map team_id ts)" and "x \<in> set ts" and "y \<in> set ts"
      and "team_id x = team_id y"
  shows "x = y"
  using assms by (meson distinct_map inj_onD)

text \<open>
  Claim C6: the identifier is the primary key of the teams. When the host removes a team
  of a game in the lobby, \<open>removeTeam\<close> succeeds. Afterwards the rows of the teams are
  those of before without the removed one, the same but for their order; the teams of other
  games are untouched; the order values of the teams of the game are exactly 1, 2, ..., N;
  and of two remaining teams of the game, the one that had the smaller order value before
  has the smaller order value now.
\<close>

theorem removeTeam_renumbers:
  assumes "distinct (map team_id (teams d))"
      and "findUnique team_id teamId (teams d) = Some team"
      and "findUnique game_id (team_gameId team) (games d) = Some game"
      and "game_status game = LOBBY"
      and "game_hostId game = actorId"
  shows "\<exists>d'. removeTeam d teamId actorId = (Inr (), d') \<and>
           map (\<lambda>t. t\<lparr> team_order := 0 \<rparr>) (teams d')
             = map (\<lambda>t. t\<lparr> team_order := 0 \<rparr>) (filter (\<lambda>t. team_id t \<noteq> teamId) (teams d)) \<and>
           (\<forall>t\<in>set (teams d'). team_gameId t \<noteq> team_gameId team \<longrightarrow> t \<in> set (teams d)) \<and>
           sort (map team_order (filter (\<lambda>t. team_gameId t = team_gameId team) (teams d')))
             = map int [1..<Suc (length (filter (\<lambda>t. team_gameId t = team_gameId team) (teams d')))] \<and>
           (\<forall>a\<in>set (teams d). \<forall>b\<in>set (teams d). \<forall>a'\<in>set (teams d'). \<forall>b'\<in>set (teams d').
              team_gameId a = team_gameId team \<and> team_gameId b = team_gameId team \<and>
              team_id a' = team_id a \<and> team_id b' = team_id b \<and>
              team_order a < team_order b \<longrightarrow> team_order a' < team_order b')"
proof -
  define g where "g = team_gameId team"
  define T1 where "T1 = filter (\<lambda>x. \<not> team_id x = teamId) (teams d)"
  define d1 where "d1 = d\<lparr> teams := T1 \<rparr>"
  define L where "L = filter (\<lambda>t. team_gameId t = g) T1"
  define found where "found = sort_key team_order L"
  define N where "N = new_order (enumerate 0 found)"
  define d' where "d' = d1\<lparr> teams := map N T1 \<rparr>"
  have del: "delete_where (\<lambda>t. team_id t = teamId) (teams d) = Inr T1"
    using assms(2) by (simp add: delete_where_def findUnique_def T1_def)
  have fnd: "findTeamsByOrder d1 g = found"
    by (simp add: findTeamsByOrder_def d1_def L_def found_def)
  have dT1: "distinct (map team_id T1)"
    using assms(1) by (simp add: T1_def distinct_map_filter)
  then have dL: "distinct (map team_id L)"
    by (simp add: L_def distinct_map_filter)
  have "mset (map team_id found) = mset (map team_id L)"
    by (simp add: found_def)
  then have df: "distinct (map team_id found)"
    using dL by (metis mset_eq_imp_distinct_iff)
  have sf: "set found = set L" by (simp add: found_def)
  have sL: "set L \<subseteq> set T1" "set T1 \<subseteq> set (teams d)" by (auto simp: L_def T1_def)
  have ps1: "distinct (map (\<lambda>p. team_id (snd p)) (enumerate 0 found))"
  proof -
    have "map (team_id \<circ> snd) (enumerate 0 found) = map team_id found"
      by (simp only: map_map [symmetric] map_snd_enumerate)
    then show ?thesis using df by (simp add: comp_def)
  qed
  have in_found: "snd p \<in> set found" if "p \<in> set (enumerate 0 found)" for p
  proof -
    from that have "fst p < length found" "found ! fst p = snd p"
      by (simp_all add: in_set_enumerate_eq)
    then show ?thesis by (metis nth_mem)
  qed
  have ps2: "\<forall>p\<in>set (enumerate 0 found). \<exists>x\<in>set (teams d1). team_id x = team_id (snd p)"
  proof
    fix p assume "p \<in> set (enumerate 0 found)"
    then have "snd p \<in> set T1" using in_found sf sL by blast
    then show "\<exists>x\<in>set (teams d1). team_id x = team_id (snd p)"
      by (auto simp: d1_def)
  qed
  have ren: "renumber (enumerate 0 found) d1 = (None, d')"
    using renumber_ok [OF ps1 ps2] by (simp add: d'_def N_def d1_def)
  have run: "removeTeam d teamId actorId = (Inr (), d')"
    using assms(2-5) del ren fnd
    by (simp add: removeTeam_def ensureLobbyGame_def Let_def g_def [symmetric] d1_def [symmetric])
  have td': "teams d' = map N T1" by (simp add: d'_def)
  \<comment> \<open>the rows stay, but for their order\<close>
  have rows: "map (\<lambda>t. t\<lparr> team_order := 0 \<rparr>) (teams d')
             = map (\<lambda>t. t\<lparr> team_order := 0 \<rparr>) (filter (\<lambda>t. team_id t \<noteq> teamId) (teams d))"
    by (simp add: td' N_def new_order_clear T1_def)
  \<comment> \<open>the teams of other games are untouched\<close>
  have others: "\<forall>t\<in>set (teams d'). team_gameId t \<noteq> g \<longrightarrow> t \<in> set (teams d)"
  proof (intro ballI impI)
    fix t assume "t \<in> set (teams d')" and ng: "team_gameId t \<noteq> g"
    then obtain x where x: "x \<in> set T1" "t = N x" by (auto simp: td')
    then have xg: "team_gameId x \<noteq> g" using ng by (simp add: N_def)
    have "team_id (snd p) \<noteq> team_id x" if "p \<in> set (enumerate 0 found)" for p
    proof
      assume e: "team_id (snd p) = team_id x"
      from that have "snd p \<in> set L" using in_found sf by blast
      then have "snd p \<in> set T1" "team_gameId (snd p) = g" by (simp_all add: L_def)
      with same_id_same_row [OF dT1 _ x(1) e] xg show False by simp
    qed
    then have "N x = x" unfolding N_def by (rule new_order_absent)
    with x sL show "t \<in> set (teams d)" by auto
  qed
  \<comment> \<open>the orders of the game's teams are 1, ..., n\<close>
  have fl: "filter (\<lambda>t. team_gameId t = g) (teams d') = map N L"
    by (simp add: td' filter_map comp_def N_def L_def)
  have ord: "map team_order (map N found) = map (\<lambda>j. int j + 1) [0..<length found]"
    unfolding N_def by (rule renumbered_orders [OF df])
  have "map (\<lambda>j. int j + 1) [0..<length found] = map int (map Suc [0..<length found])"
    by simp
  also have "\<dots> = map int [1..<Suc (length found)]"
    by (simp only: map_Suc_upt One_nat_def)
  finally have ord': "map team_order (map N found) = map int [1..<Suc (length found)]"
    using ord by simp
  have srt: "sorted (map team_order (map N found))"
    unfolding ord by (simp add: sorted_iff_nth_mono)
  have ms: "mset (map team_order (map N found)) = mset (map team_order (map N L))"
    by (simp add: found_def)
  have "sort (map team_order (map N L)) = map team_order (map N found)"
    by (rule properties_for_sort [OF ms srt])
  moreover have "length found = length (map N L)" by (simp add: found_def)
  ultimately have contiguous:
    "sort (map team_order (filter (\<lambda>t. team_gameId t = g) (teams d')))
       = map int [1..<Suc (length (filter (\<lambda>t. team_gameId t = g) (teams d')))]"
    using ord' by (simp add: fl)
  \<comment> \<open>a team that was before another by its order is still before it\<close>
  have pos: "\<exists>i<length found. a = found ! i \<and> team_order a' = int i + 1"
    if "a \<in> set (teams d)" "team_gameId a = g" "a' \<in> set (teams d')" "team_id a' = team_id a"
    for a a'
  proof -
    from that(3) obtain x where x: "x \<in> set T1" "a' = N x" by (auto simp: td')
    then have "team_id x = team_id a" using that(4) by (simp add: N_def)
    with same_id_same_row [OF assms(1) _ that(1)] x(1) sL have xa: "x = a" by blast
    then have "a \<in> set found" using x(1) that(2) sf by (simp add: L_def)
    then obtain i where i: "i < length found" "found ! i = a" by (auto simp: in_set_conv_nth)
    from new_order_nth [OF df i(1)] i x xa show ?thesis by (auto simp: N_def)
  qed
  have keep: "\<forall>a\<in>set (teams d). \<forall>b\<in>set (teams d). \<forall>a'\<in>set (teams d'). \<forall>b'\<in>set (teams d').
              team_gameId a = g \<and> team_gameId b = g \<and>
              team_id a' = team_id a \<and> team_id b' = team_id b \<and>
              team_order a < team_order b \<longrightarrow> team_order a' < team_order b'"
  proof (intro ballI impI, elim conjE)
    fix a b a' b'
    assume a: "a \<in> set (teams d)" "team_gameId a = g" "a' \<in> set (teams d')" "team_id a' = team_id a"
       and b: "b \<in> set (teams d)" "team_gameId b = g" "b' \<in> set (teams d')" "team_id b' = team_id b"
       and lt: "team_order a < team_order b"
    from pos [OF a] obtain i where i: "i < length found" "a = found ! i" "team_order a' = int i + 1"
      by blast
    from pos [OF b] obtain j where j: "j < length found" "b = found ! j" "team_order b' = int j + 1"
      by blast
    have "sorted (map team_order found)" by (simp add: found_def)
    then have mono: "\<And>m n. m \<le> n \<Longrightarrow> n < length found \<Longrightarrow> team_order (found ! m) \<le> team_order (found ! n)"
      by (simp add: sorted_iff_nth_mono)
    have "i < j"
    proof (rule ccontr)
      assume "\<not> i < j"
      then have "j \<le> i" by simp
      from mono [OF this i(1)] i(2) j(2) lt show False by simp
    qed
    with i(3) j(3) show "team_order a' < team_order b'" by simp
  qed
  from run rows others contiguous keep show ?thesis
    unfolding g_def by blast
qed


theorem removeTeam_renumbers_witness:
  "succeeds (removeTeam shuffled_db ''tB'' ''host1'') \<and>
   map (\<lambda>t. (team_id t, team_order t)) (teams (snd (removeTeam shuffled_db ''tB'' ''host1'')))
     = [(''tA'', 2), (''tC'', 1)]"
proof -
  have pk: "distinct (map team_id (teams shuffled_db))"
    by (simp add: shuffled_db_def)
  have t: "findUnique team_id ''tB'' (teams shuffled_db) = Some (teams shuffled_db ! 1)"
    by (simp add: findUnique_def shuffled_db_def)
  have g: "findUnique game_id (team_gameId (teams shuffled_db ! 1)) (games shuffled_db)
             = Some (hd (games lobby_db))"
          "game_status (hd (games lobby_db)) = LOBBY"
          "game_hostId (hd (games lobby_db)) = ''host1''"
    by (simp_all add: findUnique_def shuffled_db_def lobby_db_def)
  from removeTeam_renumbers [OF pk t g] obtain d'
    where run: "removeTeam shuffled_db ''tB'' ''host1'' = (Inr (), d')"
    by blast
  have "map (\<lambda>t. (team_id t, team_order t)) (teams (snd (removeTeam shuffled_db ''tB'' ''host1'')))
          = [(''tA'', 2), (''tC'', 1)]"
    by (simp add: removeTeam_def shuffled_db_def lobby_db_def findUnique_def ensureLobbyGame_def
        delete_where_def update_where_def findTeamsByOrder_def enumerate_eq_zip upt_rec)
  with run show ?thesis by (simp add: succeeds_def)
qed

end
